theory Spec2Isabelle
  imports Main
begin

section \<open>Sentence reconciliation of the Coq language server (server/src/Sentence.ts)\<close>

text \<open>
  The class \<open>Sentence\<close> keeps the text, the document range and the document offset of one
  command of a Coq script, and reconciles them with batches of editor changes
  (\<open>applyTextChanges\<close>). It calls two modules of the server, \<open>./text-util\<close> and
  \<open>./parsing/coq-parser\<close>, and the class \<open>State\<close> of \<open>./STMState\<close>. The embedding follows
  \<open>Sentence.ts\<close> line by line; the functions of the two modules are parameters of every
  method (the record \<open>deps\<close>), and a second part gives the instance of them that the
  specification describes.

  JavaScript numbers that hold offsets, lengths, lines and columns are \<open>int\<close>. A JavaScript
  string is a sequence of UTF-16 code units; it is a \<open>string\<close> here, one \<open>char\<close> for each code
  unit, so that \<open>length\<close> is \<open>.length\<close>.
\<close>

subsection \<open>Data\<close>

text \<open>\<open>Position\<close> and \<open>Range\<close> of vscode-languageserver: plain objects of numbers.\<close>

record Position =
  line :: int
  character :: int

record Range =
  start :: Position
  "end" :: Position

text \<open>
  The incremental form of \<open>TextDocumentContentChangeEvent\<close>: replace the \<open>rangeLength\<close>
  code units at \<open>range\<close> by \<open>text\<close>. The fields \<open>range\<close> and \<open>text\<close> are named \<open>change_range\<close>
  and \<open>change_text\<close>, since \<open>range\<close> is a constant of HOL and \<open>text\<close> is the field of the
  sentence.
\<close>

record TextDocumentContentChangeEvent =
  change_range :: Range
  rangeLength :: int
  change_text :: string

text \<open>The enumeration \<open>parser.SentenceRangeContainment\<close>, with the four members the switch names.\<close>

datatype SentenceRangeContainment = Before | After | Crosses | Contains

text \<open>
  Modelled from the spec: the class \<open>State\<close> of \<open>./STMState\<close>, whose code is outside
  \<open>Sentence.ts\<close>. The sentence only ever calls \<open>markInvalid()\<close> on it, so the model of a
  state object is the number of times that method has been invoked on it.
\<close>

record State =
  markInvalidCalls :: nat

definition markInvalid :: "State \<Rightarrow> State" where
  "markInvalid st = st\<lparr>markInvalidCalls := Suc (markInvalidCalls st)\<rparr>"

text \<open>
  The private fields of the class. \<open>state\<close> is \<open>undefined\<close> (\<open>None\<close>) until \<open>setState\<close> is
  called. \<open>documentRange\<close> holds the contents of the range object the field refers to.
\<close>

record Sentence =
  "text" :: string
  documentRange :: Range
  documentOffset :: int
  state :: "State option"

text \<open>
  The functions of \<open>textUtil\<close> and \<open>parser\<close> that \<open>Sentence.ts\<close> calls. Their code is in
  other files of the server, so each method below takes them as a parameter; \<open>'d\<close> is the
  type \<open>textUtil.RangeDelta\<close>. They are functions without side effects that return new
  objects (section 4.1 of the specification: ``all pure'').
\<close>

record 'd deps =
  textUtil_positionAtRelative :: "Position \<Rightarrow> string \<Rightarrow> int \<Rightarrow> Position"
  textUtil_relativeOffsetAtAbsolutePosition :: "string \<Rightarrow> Position \<Rightarrow> Position \<Rightarrow> int"
  textUtil_offsetAt :: "string \<Rightarrow> Position \<Rightarrow> int"
  textUtil_rangeContains :: "Range \<Rightarrow> Position \<Rightarrow> bool"
  textUtil_positionIsEqual :: "Position \<Rightarrow> Position \<Rightarrow> bool"
  textUtil_positionIsBeforeOrEqual :: "Position \<Rightarrow> Position \<Rightarrow> bool"
  textUtil_positionIsAfter :: "Position \<Rightarrow> Position \<Rightarrow> bool"
  textUtil_positionIsAfterOrEqual :: "Position \<Rightarrow> Position \<Rightarrow> bool"
  textUtil_rangeDeltaTranslate :: "Range \<Rightarrow> 'd \<Rightarrow> Range"
  textUtil_positionRangeDeltaTranslateEnd :: "Position \<Rightarrow> 'd \<Rightarrow> Position"
  parser_sentenceRangeContainment :: "Range \<Rightarrow> Range \<Rightarrow> SentenceRangeContainment"
  parser_parseSentenceLength :: "string \<Rightarrow> int"
  parser_isPassiveDifference :: "string \<Rightarrow> string \<Rightarrow> bool"

subsection \<open>The string methods of JavaScript that the class uses\<close>

text \<open>
  \<open>String.prototype.substring(a, b)\<close> clamps both indices to \<open>[0, length]\<close> and swaps them
  when \<open>a > b\<close>; \<open>substring(a)\<close> runs to the end. \<open>String.prototype.substr(start, len)\<close> counts
  a negative \<open>start\<close> from the end and takes at most \<open>len\<close> code units.
\<close>

definition clampIndex :: "string \<Rightarrow> int \<Rightarrow> nat" where
  "clampIndex s i = (if i < 0 then 0 else min (nat i) (length s))"

definition substring :: "string \<Rightarrow> int \<Rightarrow> int \<Rightarrow> string" where
  "substring s a b =
     (let lo = min (clampIndex s a) (clampIndex s b);
          hi = max (clampIndex s a) (clampIndex s b)
      in take (hi - lo) (drop lo s))"

definition substringFrom :: "string \<Rightarrow> int \<Rightarrow> string" where
  "substringFrom s a = drop (clampIndex s a) s"

definition substr :: "string \<Rightarrow> int \<Rightarrow> int \<Rightarrow> string" where
  "substr s st len =
     (let n = int (length s);
          b = (if st < 0 then max (n + st) 0 else min st n);
          l = min (max len 0) (n - b)
      in take (nat l) (drop (nat b) s))"

subsection \<open>The query methods (lines 42 to 107)\<close>

definition getDocumentEndOffset :: "Sentence \<Rightarrow> int" where
  "getDocumentEndOffset s = documentOffset s + int (length (text s))"

definition positionAt :: "'d deps \<Rightarrow> Sentence \<Rightarrow> int \<Rightarrow> Position" where
  "positionAt E s localOffset =
     textUtil_positionAtRelative E (start (documentRange s)) (text s) localOffset"

definition offsetAt :: "'d deps \<Rightarrow> Sentence \<Rightarrow> Position \<Rightarrow> int" where
  "offsetAt E s position =
     textUtil_relativeOffsetAtAbsolutePosition E (text s) (start (documentRange s)) position"

definition documentOffsetAt :: "'d deps \<Rightarrow> Sentence \<Rightarrow> Position \<Rightarrow> int" where
  "documentOffsetAt E s position =
     documentOffset s
       + textUtil_relativeOffsetAtAbsolutePosition E (text s) (start (documentRange s)) position"

definition contains :: "'d deps \<Rightarrow> Sentence \<Rightarrow> Position \<Rightarrow> bool" where
  "contains E s position = textUtil_rangeContains E (documentRange s) position"

definition isBefore :: "'d deps \<Rightarrow> Sentence \<Rightarrow> Position \<Rightarrow> bool" where
  "isBefore E s position = textUtil_positionIsBeforeOrEqual E (end (documentRange s)) position"

definition isBeforeOrAt :: "'d deps \<Rightarrow> Sentence \<Rightarrow> Position \<Rightarrow> bool" where
  "isBeforeOrAt E s position =
     (textUtil_positionIsBeforeOrEqual E (end (documentRange s)) position
      \<or> textUtil_positionIsBeforeOrEqual E (start (documentRange s)) position)"

definition isAfter :: "'d deps \<Rightarrow> Sentence \<Rightarrow> Position \<Rightarrow> bool" where
  "isAfter E s position = textUtil_positionIsAfter E (start (documentRange s)) position"

definition isAfterOrAt :: "'d deps \<Rightarrow> Sentence \<Rightarrow> Position \<Rightarrow> bool" where
  "isAfterOrAt E s position =
     (textUtil_positionIsAfterOrEqual E (start (documentRange s)) position
      \<or> textUtil_positionIsAfter E (end (documentRange s)) position)"

text \<open>The result of \<open>comparePosition\<close> is one of three string literals.\<close>

definition comparePosition :: "'d deps \<Rightarrow> Sentence \<Rightarrow> Position \<Rightarrow> string" where
  "comparePosition E s position =
     (if textUtil_positionIsBeforeOrEqual E (end (documentRange s)) position then ''before''
      else if textUtil_positionIsAfter E (start (documentRange s)) position then ''after''
      else ''contains'')"

subsection \<open>Invalidation (lines 130 to 133)\<close>

text \<open>
  A method call on \<open>undefined\<close> throws a \<open>TypeError\<close>; \<open>call_markInvalid\<close> is the call
  \<open>this.state.markInvalid()\<close> on a field that may be \<open>undefined\<close>. \<open>invalidate\<close> guards the
  call with \<open>if(this.state)\<close>; a state object is truthy.
\<close>

datatype error = TypeError

definition call_markInvalid :: "State option \<Rightarrow> error + State option" where
  "call_markInvalid r = (case r of None \<Rightarrow> Inl TypeError | Some st \<Rightarrow> Inr (Some (markInvalid st)))"

definition invalidate :: "Sentence \<Rightarrow> error + Sentence" where
  "invalidate s =
     (if state s \<noteq> None
      then (case call_markInvalid (state s) of
              Inl e \<Rightarrow> Inl e
            | Inr r \<Rightarrow> Inr (s\<lparr>state := r\<rparr>))
      else Inr s)"

text \<open>The two statements \<open>this.invalidate(); return false;\<close>.\<close>

definition invalidate_return_false :: "Sentence \<Rightarrow> error + Sentence \<times> bool" where
  "invalidate_return_false s =
     (case invalidate s of Inl e \<Rightarrow> Inl e | Inr s' \<Rightarrow> Inr (s', False))"

subsection \<open>applyTextChanges (lines 139 to 193)\<close>

text \<open>
  The state of the method while it runs: the object itself and the local variables.
  \<open>let newRange = this.documentRange\<close> copies a reference, not the range: until \<open>newRange\<close>
  is bound to the new object that \<open>rangeDeltaTranslate\<close> returns, \<open>newRange\<close> and
  \<open>this.documentRange\<close> are one object, and the assignment \<open>newRange.end = ...\<close> of line 170
  writes the field of the sentence too. \<open>newRangeIsDocumentRange\<close> records whether the two
  references are still the same object. \<open>newErrorRange\<close> is \<open>undefined\<close> from line 142 on.
\<close>

record locals =
  this :: Sentence
  newText :: string
  newRange :: Range
  newRangeIsDocumentRange :: bool
  newErrorRange :: "Range option"
  touchesEnd :: bool

definition initial :: "Sentence \<Rightarrow> locals" where
  "initial s =
     \<lparr>this = s, newText = text s, newRange = documentRange s,
      newRangeIsDocumentRange = True, newErrorRange = None, touchesEnd = False\<rparr>"

text \<open>The assignment \<open>newRange.end = p\<close>, through the reference.\<close>

definition assign_newRange_end :: "locals \<Rightarrow> Position \<Rightarrow> locals" where
  "assign_newRange_end L p =
     L\<lparr>newRange := (newRange L)\<lparr>end := p\<rparr>,
       this := (if newRangeIsDocumentRange L
                then (this L)\<lparr>documentRange := (documentRange (this L))\<lparr>end := p\<rparr>\<rparr>
                else this L)\<rparr>"

text \<open>
  One round of the loop either goes on to the next change or leaves the method with a
  result (the \<open>return false\<close> of line 160).
\<close>

datatype outcome = Continue locals | Return "error + Sentence \<times> bool"

text \<open>
  The body of the loop for \<open>change = changes[idx]\<close> and \<open>delta = deltas[idx]\<close>. The two arrays
  are parallel (the caller computes one delta for each change), so the batch is the list of
  the pairs \<open>(changes[idx], deltas[idx])\<close>.
\<close>

definition loop_body ::
  "'d deps \<Rightarrow> locals \<Rightarrow> TextDocumentContentChangeEvent \<times> 'd \<Rightarrow> outcome" where
  "loop_body E L cd =
     (let change = fst cd; delta = snd cd in
      case parser_sentenceRangeContainment E (newRange L) (change_range change) of
        Before \<Rightarrow>
          Continue (L\<lparr>this := (this L)\<lparr>documentOffset :=
                         documentOffset (this L)
                           + (int (length (change_text change)) - rangeLength change)\<rparr>,
                      newRange := textUtil_rangeDeltaTranslate E (newRange L) delta,
                      newRangeIsDocumentRange := False,
                      newErrorRange :=
                        (case newErrorRange L of
                           None \<Rightarrow> None
                         | Some r \<Rightarrow> Some (textUtil_rangeDeltaTranslate E r delta))\<rparr>)
      | After \<Rightarrow>
          Continue (if textUtil_positionIsEqual E (end (newRange L)) (start (change_range change))
                    then L\<lparr>touchesEnd := True\<rparr> else L)
      | Crosses \<Rightarrow> Return (invalidate_return_false (this L))
      | Contains \<Rightarrow>
          (let beginOffset =
                 textUtil_relativeOffsetAtAbsolutePosition E (newText L) (start (newRange L))
                   (start (change_range change))
           in if beginOffset = - 1 then Continue L
              else Continue
                (assign_newRange_end
                   (L\<lparr>newText :=
                        substring (newText L) 0 beginOffset
                        @ change_text change
                        @ substringFrom (newText L) (beginOffset + rangeLength change)\<rparr>)
                   (textUtil_positionRangeDeltaTranslateEnd E (end (newRange L)) delta))))"

fun loop ::
  "'d deps \<Rightarrow> locals \<Rightarrow> (TextDocumentContentChangeEvent \<times> 'd) list \<Rightarrow> outcome" where
  "loop E L [] = Continue L"
| "loop E L (cd # rest) =
     (case loop_body E L cd of
        Continue L' \<Rightarrow> loop E L' rest
      | Return r \<Rightarrow> Return r)"

text \<open>Lines 175 to 184: the check of the end of the sentence, when a change touched it.\<close>

definition endHasMoved :: "'d deps \<Rightarrow> locals \<Rightarrow> string \<Rightarrow> bool" where
  "endHasMoved E L updatedDocumentText =
     (let endOffset = textUtil_offsetAt E updatedDocumentText (end (newRange L));
          newEnd = parser_parseSentenceLength E
                     (newText L @ substr updatedDocumentText endOffset 1)
      in newEnd = - 1 \<or> newEnd \<noteq> int (length (newText L)))"

text \<open>Lines 175 to 192: what the method does once the loop has run through.\<close>

definition after_loop :: "'d deps \<Rightarrow> locals \<Rightarrow> string \<Rightarrow> error + Sentence \<times> bool" where
  "after_loop E L updatedDocumentText =
     (if touchesEnd L \<and> endHasMoved E L updatedDocumentText
      then invalidate_return_false (this L)
      else if parser_isPassiveDifference E (text (this L)) (newText L)
      then Inr ((this L)\<lparr>text := newText L, documentRange := newRange L\<rparr>, True)
      else invalidate_return_false (this L))"

definition applyTextChanges ::
  "'d deps \<Rightarrow> Sentence \<Rightarrow> (TextDocumentContentChangeEvent \<times> 'd) list \<Rightarrow> string
     \<Rightarrow> error + Sentence \<times> bool" where
  "applyTextChanges E s batch updatedDocumentText =
     (case loop E (initial s) batch of
        Return r \<Rightarrow> r
      | Continue L \<Rightarrow> after_loop E L updatedDocumentText)"

section \<open>The two modules, as the specification describes them\<close>

subsection \<open>textUtil: positions and ranges\<close>

text \<open>
  Modelled from the spec: the comparisons of \<open>./text-util\<close>, whose code is outside
  \<open>Sentence.ts\<close>. Section 3: positions are ordered lexicographically, \<open>(l1,c1) < (l2,c2)\<close> iff
  \<open>l1 < l2\<close>, or \<open>l1 = l2\<close> and \<open>c1 < c2\<close>; section 4.1: the five comparisons are those of that
  order.
\<close>

definition positionIsEqual :: "Position \<Rightarrow> Position \<Rightarrow> bool" where
  "positionIsEqual a b = (line a = line b \<and> character a = character b)"

definition positionIsBefore :: "Position \<Rightarrow> Position \<Rightarrow> bool" where
  "positionIsBefore a b = (line a < line b \<or> (line a = line b \<and> character a < character b))"

definition positionIsBeforeOrEqual :: "Position \<Rightarrow> Position \<Rightarrow> bool" where
  "positionIsBeforeOrEqual a b = (positionIsBefore a b \<or> positionIsEqual a b)"

definition positionIsAfter :: "Position \<Rightarrow> Position \<Rightarrow> bool" where
  "positionIsAfter a b = positionIsBefore b a"

definition positionIsAfterOrEqual :: "Position \<Rightarrow> Position \<Rightarrow> bool" where
  "positionIsAfterOrEqual a b = positionIsBeforeOrEqual b a"

text \<open>
  Modelled from the spec: \<open>textUtil.rangeContains\<close>. Section 3: a range is a half-open span,
  so it contains the positions from its start on and before its end.
\<close>

definition rangeContains :: "Range \<Rightarrow> Position \<Rightarrow> bool" where
  "rangeContains r p = (positionIsBeforeOrEqual (start r) p \<and> positionIsBefore p (end r))"

text \<open>
  Modelled from the spec: \<open>textUtil.positionAtRelative\<close>. Section 4.1: the position reached
  by walking \<open>localOffset\<close> characters of \<open>text\<close> from \<open>origin\<close>, advancing \<open>line\<close> on each line
  terminator and resetting \<open>character\<close>. The line terminator is the line feed. The walk
  stops at the end of the text.
\<close>

definition advance :: "Position \<Rightarrow> char \<Rightarrow> Position" where
  "advance p c =
     (if c = CHR 0x0A then \<lparr>line = line p + 1, character = 0\<rparr>
      else \<lparr>line = line p, character = character p + 1\<rparr>)"

definition positionAtRelative :: "Position \<Rightarrow> string \<Rightarrow> int \<Rightarrow> Position" where
  "positionAtRelative origin txt localOffset = foldl advance origin (take (nat localOffset) txt)"

text \<open>
  Modelled from the spec: \<open>textUtil.relativeOffsetAtAbsolutePosition\<close>. Section 4.1: the
  inverse operation, \<open>-1\<close> if the position does not fall within the text. \<open>offsetFrom\<close> walks
  the text and counts until it stands on the position.
\<close>

fun offsetFrom :: "Position \<Rightarrow> string \<Rightarrow> Position \<Rightarrow> int \<Rightarrow> int" where
  "offsetFrom cur [] position k = (if cur = position then k else - 1)"
| "offsetFrom cur (c # cs) position k =
     (if cur = position then k else offsetFrom (advance cur c) cs position (k + 1))"

definition relativeOffsetAtAbsolutePosition :: "string \<Rightarrow> Position \<Rightarrow> Position \<Rightarrow> int" where
  "relativeOffsetAtAbsolutePosition txt origin position = offsetFrom origin txt position 0"

text \<open>
  Modelled from the spec: \<open>textUtil.offsetAt\<close>. Section 4.1: the absolute document offset of
  a position; the document starts at line 0, character 0.
\<close>

definition document_offsetAt :: "string \<Rightarrow> Position \<Rightarrow> int" where
  "document_offsetAt document position =
     relativeOffsetAtAbsolutePosition document \<lparr>line = 0, character = 0\<rparr> position"

subsection \<open>textUtil: deltas\<close>

text \<open>
  Modelled from the spec: \<open>textUtil.RangeDelta\<close> and the two translations. Section 3: a delta
  is ``effectively (editStart, linesAdded, lastLineCharsAdded, editRange)'' and says how one
  edit shifts the positions after it: every such position moves by \<open>linesAdded\<close> lines, and
  one on the last line of the edited range moves by \<open>lastLineCharsAdded\<close> characters as
  well. Section 4.1: the translations do not check that the position lies after the edit;
  \<open>rangeDeltaTranslate\<close> shifts both ends of a range and makes a new range.
\<close>

record RangeDelta =
  editStart :: Position
  linesAdded :: int
  lastLineCharsAdded :: int
  editRange :: Range

definition positionRangeDeltaTranslate :: "Position \<Rightarrow> RangeDelta \<Rightarrow> Position" where
  "positionRangeDeltaTranslate p delta =
     \<lparr>line = line p + linesAdded delta,
      character = (if line p = line (end (editRange delta))
                   then character p + lastLineCharsAdded delta else character p)\<rparr>"

definition positionRangeDeltaTranslateEnd :: "Position \<Rightarrow> RangeDelta \<Rightarrow> Position" where
  "positionRangeDeltaTranslateEnd p delta = positionRangeDeltaTranslate p delta"

definition rangeDeltaTranslate :: "Range \<Rightarrow> RangeDelta \<Rightarrow> Range" where
  "rangeDeltaTranslate r delta =
     \<lparr>start = positionRangeDeltaTranslate (start r) delta,
      end = positionRangeDeltaTranslateEnd (end r) delta\<rparr>"

subsection \<open>parser: the classification of a change\<close>

text \<open>
  Modelled from the spec: \<open>parser.sentenceRangeContainment\<close>. Section 4.2, in the order of
  the text: Before when the edited range lies entirely at or before the start of the
  sentence; After when it starts at or after the end of the sentence; Contains when it is
  nested within the range of the sentence; Crosses for any other overlap.
\<close>

definition sentenceRangeContainment :: "Range \<Rightarrow> Range \<Rightarrow> SentenceRangeContainment" where
  "sentenceRangeContainment sentRange changeRange =
     (if positionIsBeforeOrEqual (end changeRange) (start sentRange) then Before
      else if positionIsAfterOrEqual (start changeRange) (end sentRange) then After
      else if positionIsBeforeOrEqual (start sentRange) (start changeRange)
              \<and> positionIsBeforeOrEqual (end changeRange) (end sentRange) then Contains
      else Crosses)"

subsection \<open>parser: the lexical rule\<close>

text \<open>
  Modelled from the spec: \<open>parser.parseSentenceLength\<close> and \<open>parser.isPassiveDifference\<close>.
  Section 4.2 leaves the lexical rule open (``the classifier treats it as an oracle''), so
  the instance \<open>spec_deps\<close> takes the two functions as arguments and every theorem holds for
  all of them. To run the methods on examples there is one simple rule: a sentence ends
  with the first period that is followed by a blank or by the end of the text (the
  comment of line 178 names the blanks, space, carriage return and line feed), and a
  difference is passive when the two texts agree once their blanks are removed.
\<close>

definition blank :: "char \<Rightarrow> bool" where
  "blank c = (c = CHR '' '' \<or> c = CHR 0x0D \<or> c = CHR 0x0A)"

fun sample_sentenceEnd :: "string \<Rightarrow> int \<Rightarrow> int" where
  "sample_sentenceEnd [] k = - 1"
| "sample_sentenceEnd [c] k = (if c = CHR ''.'' then k + 1 else - 1)"
| "sample_sentenceEnd (c # c' # cs) k =
     (if c = CHR ''.'' \<and> blank c' then k + 1 else sample_sentenceEnd (c' # cs) (k + 1))"

definition sample_parseSentenceLength :: "string \<Rightarrow> int" where
  "sample_parseSentenceLength txt = sample_sentenceEnd txt 0"

definition sample_isPassiveDifference :: "string \<Rightarrow> string \<Rightarrow> bool" where
  "sample_isPassiveDifference oldText newTxt =
     (filter (\<lambda>c. \<not> blank c) oldText = filter (\<lambda>c. \<not> blank c) newTxt)"

definition spec_deps ::
  "(string \<Rightarrow> int) \<Rightarrow> (string \<Rightarrow> string \<Rightarrow> bool) \<Rightarrow> RangeDelta deps" where
  "spec_deps parseSentenceLength isPassiveDifference =
     \<lparr>textUtil_positionAtRelative = positionAtRelative,
      textUtil_relativeOffsetAtAbsolutePosition = relativeOffsetAtAbsolutePosition,
      textUtil_offsetAt = document_offsetAt,
      textUtil_rangeContains = rangeContains,
      textUtil_positionIsEqual = positionIsEqual,
      textUtil_positionIsBeforeOrEqual = positionIsBeforeOrEqual,
      textUtil_positionIsAfter = positionIsAfter,
      textUtil_positionIsAfterOrEqual = positionIsAfterOrEqual,
      textUtil_rangeDeltaTranslate = rangeDeltaTranslate,
      textUtil_positionRangeDeltaTranslateEnd = positionRangeDeltaTranslateEnd,
      parser_sentenceRangeContainment = sentenceRangeContainment,
      parser_parseSentenceLength = parseSentenceLength,
      parser_isPassiveDifference = isPassiveDifference\<rparr>"

definition sample_deps :: "RangeDelta deps" where
  "sample_deps = spec_deps sample_parseSentenceLength sample_isPassiveDifference"

section \<open>Notions used to state the properties\<close>

text \<open>
  What \<open>invalidate\<close> leaves behind: the same sentence, with \<open>markInvalid()\<close> invoked once on
  the state when there is one.
\<close>

definition invalidated :: "Sentence \<Rightarrow> Sentence" where
  "invalidated s = s\<lparr>state := map_option markInvalid (state s)\<rparr>"

text \<open>
  The amount that line 149 has added to \<open>this.documentOffset\<close> when the loop stops: the sum
  of \<open>change.text.length - change.rangeLength\<close> over the changes classified Before, up to
  the end of the batch or to the change at which the method returns.
\<close>

fun offsetAdvance ::
  "'d deps \<Rightarrow> locals \<Rightarrow> (TextDocumentContentChangeEvent \<times> 'd) list \<Rightarrow> int" where
  "offsetAdvance E L [] = 0"
| "offsetAdvance E L (cd # rest) =
     (if parser_sentenceRangeContainment E (newRange L) (change_range (fst cd)) = Before
      then int (length (change_text (fst cd))) - rangeLength (fst cd) else 0)
     + (case loop_body E L cd of
          Continue L' \<Rightarrow> offsetAdvance E L' rest
        | Return r \<Rightarrow> 0)"

text \<open>The fields of the object that the loop leaves alone, and the advance of the offset.\<close>

definition kept :: "locals \<Rightarrow> locals \<Rightarrow> int \<Rightarrow> bool" where
  "kept L L' d \<longleftrightarrow>
     text (this L') = text (this L)
     \<and> start (documentRange (this L')) = start (documentRange (this L))
     \<and> state (this L') = state (this L)
     \<and> documentOffset (this L') = documentOffset (this L) + d"

text \<open>
  The invariant of section 3: the length of the text is the distance from the start to the
  end of the range. Distances between positions are measured along the text, so the
  invariant says that walking the whole text from the start of the range ends on the end
  of the range. \<open>working_invariant\<close> is the same for the working copies of the loop.
\<close>

definition sentence_invariant :: "Sentence \<Rightarrow> bool" where
  "sentence_invariant s \<longleftrightarrow>
     positionAtRelative (start (documentRange s)) (text s) (int (length (text s)))
       = end (documentRange s)"

definition working_invariant :: "locals \<Rightarrow> bool" where
  "working_invariant L \<longleftrightarrow>
     foldl advance (start (newRange L)) (newText L) = end (newRange L)"

text \<open>
  A delta describes its change when it names the edited range and gives the distance, in
  lines and in characters of the last line, from the old end of that range to the end of
  the inserted text.
\<close>

definition delta_describes :: "TextDocumentContentChangeEvent \<Rightarrow> RangeDelta \<Rightarrow> bool" where
  "delta_describes change delta \<longleftrightarrow>
     (let newEnd = positionAtRelative (start (change_range change)) (change_text change)
                     (int (length (change_text change)))
      in editStart delta = start (change_range change)
         \<and> editRange delta = change_range change
         \<and> linesAdded delta = line newEnd - line (end (change_range change))
         \<and> lastLineCharsAdded delta
             = character newEnd - character (end (change_range change)))"

text \<open>
  \<open>rangeLength\<close> describes a change inside the sentence when it is the number of code units
  of the working text between the two ends of the edited range. Nothing is asked of a change
  whose start is not found in the text: line 165 skips it.
\<close>

definition rangeLength_describes ::
  "string \<Rightarrow> Range \<Rightarrow> TextDocumentContentChangeEvent \<Rightarrow> bool" where
  "rangeLength_describes txt r change \<longleftrightarrow>
     (let beginOffset =
            relativeOffsetAtAbsolutePosition txt (start r) (start (change_range change));
          endOffset =
            relativeOffsetAtAbsolutePosition txt (start r) (end (change_range change))
      in beginOffset \<noteq> - 1 \<longrightarrow>
           endOffset \<noteq> - 1 \<and> 0 \<le> rangeLength change
           \<and> endOffset = beginOffset + rangeLength change)"

text \<open>
  A batch is described correctly when every change that the loop reaches has a delta that
  describes it and, if it is classified Contains, a \<open>rangeLength\<close> that describes it. Each
  change is read against the working text and range of its own round.
\<close>

fun changes_described ::
  "RangeDelta deps \<Rightarrow> locals \<Rightarrow> (TextDocumentContentChangeEvent \<times> RangeDelta) list \<Rightarrow> bool" where
  "changes_described E L [] = True"
| "changes_described E L (cd # rest) =
     (delta_describes (fst cd) (snd cd)
      \<and> (parser_sentenceRangeContainment E (newRange L) (change_range (fst cd)) = Contains
           \<longrightarrow> rangeLength_describes (newText L) (newRange L) (fst cd))
      \<and> (case loop_body E L cd of
            Continue L' \<Rightarrow> changes_described E L' rest
          | Return r \<Rightarrow> True))"

subsection \<open>Example data\<close>

text \<open>
  The sentence of section 8 of the specification, \<open>foo.\<close> at columns 5 to 9 of line 0, with
  a state attached; and the change that replaces \<open>n\<close> characters at line \<open>l\<close>, column \<open>c\<close> by a
  text, together with the delta that describes it.
\<close>

definition foo_sentence :: Sentence where
  "foo_sentence =
     \<lparr>text = ''foo.'',
      documentRange = \<lparr>start = \<lparr>line = 0, character = 5\<rparr>,
                       end = \<lparr>line = 0, character = 9\<rparr>\<rparr>,
      documentOffset = 5,
      state = Some \<lparr>markInvalidCalls = 0\<rparr>\<rparr>"

definition replaceAt ::
  "int \<Rightarrow> int \<Rightarrow> int \<Rightarrow> string \<Rightarrow> TextDocumentContentChangeEvent \<times> RangeDelta" where
  "replaceAt l c n ins =
     (let r = \<lparr>start = \<lparr>line = l, character = c\<rparr>, end = \<lparr>line = l, character = c + n\<rparr>\<rparr>;
          e = positionAtRelative (start r) ins (int (length ins))
      in (\<lparr>change_range = r, rangeLength = n, change_text = ins\<rparr>,
          \<lparr>editStart = start r, linesAdded = line e - line (end r),
           lastLineCharsAdded = character e - character (end r), editRange = r\<rparr>))"

section \<open>Properties of applyTextChanges that hold for every implementation of the modules\<close>

subsection \<open>Invalidation and the loop\<close>

lemma invalidate_eq: "invalidate s = Inr (invalidated s)"
  by (cases "state s") (simp_all add: invalidate_def call_markInvalid_def invalidated_def)

lemma invalidate_return_false_eq: "invalidate_return_false s = Inr (invalidated s, False)"
  by (simp add: invalidate_return_false_def invalidate_eq)

lemma loop_append:
  "loop E L (xs @ ys) =
     (case loop E L xs of Continue L' \<Rightarrow> loop E L' ys | Return r \<Rightarrow> Return r)"
  by (induction xs arbitrary: L) (simp_all split: outcome.splits)

lemma loop_body_return:
  "loop_body E L cd = Return r \<Longrightarrow> r = Inr (invalidated (this L), False)"
  by (auto simp: loop_body_def Let_def invalidate_return_false_eq
           split: SentenceRangeContainment.splits if_splits)

lemma loop_body_return_class:
  "loop_body E L cd = Return r \<Longrightarrow>
     parser_sentenceRangeContainment E (newRange L) (change_range (fst cd)) = Crosses"
  by (auto simp: loop_body_def Let_def split: SentenceRangeContainment.splits if_splits)

lemma loop_body_kept:
  "loop_body E L cd = Continue L' \<Longrightarrow>
   kept L L'
     (if parser_sentenceRangeContainment E (newRange L) (change_range (fst cd)) = Before
      then int (length (change_text (fst cd))) - rangeLength (fst cd) else 0)"
  by (auto simp: loop_body_def Let_def assign_newRange_end_def kept_def
           split: SentenceRangeContainment.splits if_splits)

lemma loop_kept:
  "loop E L xs = Continue L' \<Longrightarrow> kept L L' (offsetAdvance E L xs)"
proof (induction xs arbitrary: L)
  case Nil
  then show ?case by (simp add: kept_def)
next
  case (Cons cd xs)
  from Cons.prems obtain L1 where b: "loop_body E L cd = Continue L1"
    and l: "loop E L1 xs = Continue L'"
    by (auto split: outcome.splits)
  from loop_body_kept[OF b] Cons.IH[OF l] b show ?case
    by (simp add: kept_def)
qed

lemma loop_return_kept:
  "loop E L xs = Return r \<Longrightarrow>
     \<exists>L'::locals. r = Inr (invalidated (this L'), False) \<and> kept L L' (offsetAdvance E L xs)"
proof (induction xs arbitrary: L)
  case Nil
  then show ?case by simp
next
  case (Cons cd xs)
  show ?case
  proof (cases "loop_body E L cd")
    case (Continue L1)
    with Cons.prems have "loop E L1 xs = Return r" by simp
    from Cons.IH[OF this] obtain L' :: locals where
      r: "r = Inr (invalidated (this L'), False)"
      and k: "kept L1 L' (offsetAdvance E L1 xs)" by blast
    from k loop_body_kept[OF Continue] Continue
    have "kept L L' (offsetAdvance E L (cd # xs))" by (simp add: kept_def)
    with r show ?thesis by blast
  next
    case (Return r')
    with Cons.prems have "r = r'" by simp
    with loop_body_return[OF Return] have r: "r = Inr (invalidated (this L), False)" by simp
    have "kept L L (offsetAdvance E L (cd # xs))"
      using Return loop_body_return_class[OF Return] by (simp add: kept_def)
    with r show ?thesis by blast
  qed
qed

lemma loop_body_touchesEnd:
  "loop_body E L cd = Continue L' \<Longrightarrow> touchesEnd L \<Longrightarrow> touchesEnd L'"
  by (auto simp: loop_body_def Let_def assign_newRange_end_def
           split: SentenceRangeContainment.splits if_splits)

lemma loop_touchesEnd:
  "loop E L xs = Continue L' \<Longrightarrow> touchesEnd L \<Longrightarrow> touchesEnd L'"
  by (induction xs arbitrary: L) (auto split: outcome.splits dest: loop_body_touchesEnd)

lemma after_loop_cases:
  "after_loop E L doc = Inr ((this L)\<lparr>text := newText L, documentRange := newRange L\<rparr>, True)
   \<or> after_loop E L doc = Inr (invalidated (this L), False)"
  by (simp add: after_loop_def invalidate_return_false_eq)

subsection \<open>What a false return leaves of the sentence\<close>

text \<open>
  C1, as the code has it. When \<open>applyTextChanges\<close> returns false, the text of the sentence
  and the start of its range are what they were before the call, and \<open>markInvalid()\<close> has
  been invoked once on the state if there is one. The offset is not restored: it has been
  advanced by \<open>change.text.length - change.rangeLength\<close> for every change classified Before
  that the loop went through before the method returned. (Nothing is said of the end of
  the range.)
\<close>

theorem applyTextChanges_false_keeps_text_and_start:
  assumes "applyTextChanges E s batch doc = Inr (s', False)"
  shows "text s' = text s
     \<and> start (documentRange s') = start (documentRange s)
     \<and> documentOffset s' = documentOffset s + offsetAdvance E (initial s) batch
     \<and> state s' = map_option markInvalid (state s)"
proof (cases "loop E (initial s) batch")
  case (Continue L)
  from loop_kept[OF Continue]
  have k: "kept (initial s) L (offsetAdvance E (initial s) batch)" .
  from assms Continue have "after_loop E L doc = Inr (s', False)"
    by (simp add: applyTextChanges_def)
  with after_loop_cases[of E L doc] have "s' = invalidated (this L)" by auto
  with k show ?thesis by (simp add: kept_def invalidated_def initial_def)
next
  case (Return r)
  from loop_return_kept[OF Return] obtain L' :: locals where
    r: "r = Inr (invalidated (this L'), False)"
    and k: "kept (initial s) L' (offsetAdvance E (initial s) batch)" by blast
  from assms Return r have "s' = invalidated (this L')" by (simp add: applyTextChanges_def)
  with k show ?thesis by (simp add: kept_def invalidated_def initial_def)
qed

theorem applyTextChanges_false_keeps_text_and_start_witness:
  "applyTextChanges sample_deps foo_sentence
       [replaceAt 0 0 0 ''abcd'', replaceAt 0 12 8 []] ''abcd     foo''
     = Inr (foo_sentence\<lparr>documentOffset := 9, state := Some \<lparr>markInvalidCalls = 1\<rparr>\<rparr>, False)
   \<and> text (foo_sentence\<lparr>documentOffset := 9, state := Some \<lparr>markInvalidCalls = 1\<rparr>\<rparr>)
       = text foo_sentence
   \<and> offsetAdvance sample_deps (initial foo_sentence)
       [replaceAt 0 0 0 ''abcd'', replaceAt 0 12 8 []] = 4
   \<and> documentOffset foo_sentence = 5"
proof -
  have h: "applyTextChanges sample_deps foo_sentence
       [replaceAt 0 0 0 ''abcd'', replaceAt 0 12 8 []] ''abcd     foo''
     = Inr (foo_sentence\<lparr>documentOffset := 9, state := Some \<lparr>markInvalidCalls = 1\<rparr>\<rparr>, False)"
    by code_simp
  have d: "documentOffset foo_sentence = 5" by (simp add: foo_sentence_def)
  from applyTextChanges_false_keeps_text_and_start[OF h] h d show ?thesis by simp
qed

text \<open>
  The claim as stated fails: a change before the sentence and a change inside it are gone
  through before a crossing change makes the method return false, and the offset (9, from
  5) and the end of the range (column 10, from 9) of the sentence have changed.
\<close>

theorem applyTextChanges_false_changes_offset_and_range:
  "applyTextChanges sample_deps foo_sentence
       [replaceAt 0 7 0 ''x'', replaceAt 0 0 0 ''abcd'', replaceAt 0 12 8 []] ''abcd     fox''
     = Inr (\<lparr>text = ''foo.'',
             documentRange = \<lparr>start = \<lparr>line = 0, character = 5\<rparr>,
                              end = \<lparr>line = 0, character = 10\<rparr>\<rparr>,
             documentOffset = 9,
             state = Some \<lparr>markInvalidCalls = 1\<rparr>\<rparr>, False)
   \<and> documentRange foo_sentence
       = \<lparr>start = \<lparr>line = 0, character = 5\<rparr>, end = \<lparr>line = 0, character = 9\<rparr>\<rparr>
   \<and> documentOffset foo_sentence = 5"
  by code_simp

subsection \<open>False is returned exactly when the sentence is invalidated\<close>

text \<open>
  C2. For every sentence and every batch the method returns, without throwing, either
  true, and then \<open>markInvalid()\<close> has not been invoked on the state, or false, and then
  \<open>markInvalid()\<close> has been invoked exactly once on the state if one is attached; with no
  state attached the invalidation changes nothing and does not throw.
\<close>

theorem applyTextChanges_false_iff_invalidated:
  "(\<exists>s'. applyTextChanges E s batch doc = Inr (s', True) \<and> state s' = state s)
   \<or> (\<exists>s'. applyTextChanges E s batch doc = Inr (s', False)
            \<and> state s' = map_option markInvalid (state s))"
proof (cases "loop E (initial s) batch")
  case (Continue L)
  from loop_kept[OF Continue] have st: "state (this L) = state s"
    by (simp add: kept_def initial_def)
  from after_loop_cases[of E L doc] show ?thesis
    using Continue st by (auto simp: applyTextChanges_def invalidated_def)
next
  case (Return r)
  from loop_return_kept[OF Return] obtain L' :: locals where
    "r = Inr (invalidated (this L'), False)" "state (this L') = state (this (initial s))"
    by (auto simp: kept_def)
  then show ?thesis
    using Return by (simp add: applyTextChanges_def invalidated_def initial_def)
qed

theorem applyTextChanges_false_iff_invalidated_witness:
  "applyTextChanges sample_deps foo_sentence [replaceAt 0 5 3 ''bar''] ''     bar.''
     = Inr (foo_sentence\<lparr>state := Some \<lparr>markInvalidCalls = 1\<rparr>\<rparr>, False)
   \<and> applyTextChanges sample_deps foo_sentence [replaceAt 0 0 0 ''abcd''] ''abcd     foo.''
     = Inr (foo_sentence\<lparr>documentRange := \<lparr>start = \<lparr>line = 0, character = 9\<rparr>,
                              end = \<lparr>line = 0, character = 13\<rparr>\<rparr>, documentOffset := 9\<rparr>, True)
   \<and> applyTextChanges sample_deps (foo_sentence\<lparr>state := None\<rparr>)
         [replaceAt 0 5 3 ''bar''] ''     bar.''
     = Inr (foo_sentence\<lparr>state := None\<rparr>, False)"
proof -
  have a: "applyTextChanges sample_deps foo_sentence [replaceAt 0 5 3 ''bar''] ''     bar.''
     = Inr (foo_sentence\<lparr>state := Some \<lparr>markInvalidCalls = 1\<rparr>\<rparr>, False)" by code_simp
  have b: "applyTextChanges sample_deps foo_sentence [replaceAt 0 0 0 ''abcd''] ''abcd     foo.''
     = Inr (foo_sentence\<lparr>documentRange := \<lparr>start = \<lparr>line = 0, character = 9\<rparr>,
                              end = \<lparr>line = 0, character = 13\<rparr>\<rparr>, documentOffset := 9\<rparr>, True)"
    by code_simp
  have c: "applyTextChanges sample_deps (foo_sentence\<lparr>state := None\<rparr>)
         [replaceAt 0 5 3 ''bar''] ''     bar.''
     = Inr (foo_sentence\<lparr>state := None\<rparr>, False)" by code_simp
  from applyTextChanges_false_iff_invalidated
         [of sample_deps foo_sentence "[replaceAt 0 5 3 ''bar'']" "''     bar.''"] a b c
  show ?thesis by simp
qed

subsection \<open>A crossing change ends the method\<close>

text \<open>
  C3. If the change at index \<open>length pre\<close> is classified Crosses against the working range
  that the changes before it have produced, the method invalidates the sentence as it
  stands at that moment and returns false. The changes after it have no effect: the result
  is the same for every continuation \<open>post\<close> of the batch, and the same as for the batch
  that ends with the crossing change.
\<close>

theorem crosses_returns_false_ignoring_later_changes:
  assumes "loop E (initial s) pre = Continue L"
    and "parser_sentenceRangeContainment E (newRange L) (change_range change) = Crosses"
  shows "applyTextChanges E s (pre @ (change, delta) # post) doc
           = Inr (invalidated (this L), False)
     \<and> applyTextChanges E s (pre @ (change, delta) # post) doc
         = applyTextChanges E s (pre @ [(change, delta)]) doc'"
proof -
  have b: "loop_body E L (change, delta) = Return (Inr (invalidated (this L), False))"
    using assms(2) by (simp add: loop_body_def invalidate_return_false_eq)
  have "loop E (initial s) (pre @ (change, delta) # rest)
          = Return (Inr (invalidated (this L), False))" for rest
    using assms(1) b by (simp add: loop_append)
  then show ?thesis by (simp add: applyTextChanges_def)
qed

theorem crosses_returns_false_ignoring_later_changes_witness:
  "loop sample_deps (initial foo_sentence) [replaceAt 0 0 0 ''abcd'']
     = Continue \<lparr>this = foo_sentence\<lparr>documentOffset := 9\<rparr>, newText = ''foo.'',
                 newRange = \<lparr>start = \<lparr>line = 0, character = 9\<rparr>,
                             end = \<lparr>line = 0, character = 13\<rparr>\<rparr>,
                 newRangeIsDocumentRange = False, newErrorRange = None, touchesEnd = False\<rparr>
   \<and> parser_sentenceRangeContainment sample_deps
        \<lparr>start = \<lparr>line = 0, character = 9\<rparr>, end = \<lparr>line = 0, character = 13\<rparr>\<rparr>
        (change_range (fst (replaceAt 0 12 8 []))) = Crosses
   \<and> applyTextChanges sample_deps foo_sentence
        ([replaceAt 0 0 0 ''abcd''] @ replaceAt 0 12 8 [] # [replaceAt 0 0 0 ''zz''])
        ''zzabcd     foo''
     = Inr (foo_sentence\<lparr>documentOffset := 9, state := Some \<lparr>markInvalidCalls = 1\<rparr>\<rparr>, False)
   \<and> applyTextChanges sample_deps foo_sentence
        ([replaceAt 0 0 0 ''abcd''] @ [replaceAt 0 12 8 []]) ''abcd     foo''
     = Inr (foo_sentence\<lparr>documentOffset := 9, state := Some \<lparr>markInvalidCalls = 1\<rparr>\<rparr>, False)"
proof -
  let ?L = "\<lparr>this = foo_sentence\<lparr>documentOffset := 9\<rparr>, newText = ''foo.'',
                 newRange = \<lparr>start = \<lparr>line = 0, character = 9\<rparr>,
                             end = \<lparr>line = 0, character = 13\<rparr>\<rparr>,
                 newRangeIsDocumentRange = False, newErrorRange = None, touchesEnd = False\<rparr>"
  have h1: "loop sample_deps (initial foo_sentence) [replaceAt 0 0 0 ''abcd''] = Continue ?L"
    by code_simp
  have h2: "parser_sentenceRangeContainment sample_deps (newRange ?L)
        (change_range (fst (replaceAt 0 12 8 []))) = Crosses"
    by code_simp
  have i: "invalidated (this ?L)
       = foo_sentence\<lparr>documentOffset := 9, state := Some \<lparr>markInvalidCalls = 1\<rparr>\<rparr>"
    by code_simp
  note T = crosses_returns_false_ignoring_later_changes
         [OF h1 h2, where delta = "snd (replaceAt 0 12 8 [])"
            and post = "[replaceAt 0 0 0 ''zz'']"
            and doc = "''zzabcd     foo''" and doc' = "''abcd     foo''"]
  have r1: "applyTextChanges sample_deps foo_sentence
        ([replaceAt 0 0 0 ''abcd''] @ replaceAt 0 12 8 [] # [replaceAt 0 0 0 ''zz''])
        ''zzabcd     foo''
     = Inr (foo_sentence\<lparr>documentOffset := 9, state := Some \<lparr>markInvalidCalls = 1\<rparr>\<rparr>, False)"
    using T[THEN conjunct1] i by simp
  have r2: "applyTextChanges sample_deps foo_sentence
        ([replaceAt 0 0 0 ''abcd''] @ [replaceAt 0 12 8 []]) ''abcd     foo''
     = Inr (foo_sentence\<lparr>documentOffset := 9, state := Some \<lparr>markInvalidCalls = 1\<rparr>\<rparr>, False)"
    using T[THEN conjunct2] r1 by simp
  have h2': "parser_sentenceRangeContainment sample_deps
        \<lparr>start = \<lparr>line = 0, character = 9\<rparr>, end = \<lparr>line = 0, character = 13\<rparr>\<rparr>
        (change_range (fst (replaceAt 0 12 8 []))) = Crosses" using h2 by simp
  show ?thesis using h1 h2' r1 r2 by (intro conjI)
qed

subsection \<open>A change that touches the end\<close>

text \<open>
  C4. Let the change at index \<open>length pre\<close> be classified After, with the start of its
  range equal to the end of the working range of that round. Then either a later change
  crosses the sentence and the method has returned false from the loop, or the loop runs
  through, \<open>touchesEnd\<close> is set, and the end is validated again: with \<open>endOffset\<close> the offset
  of the end of the working range in the updated document, \<open>parseSentenceLength\<close> is
  applied to the working text followed by the one character at \<open>endOffset\<close>. If the result
  is \<open>-1\<close> or differs from the length of the working text, the method invalidates the
  sentence and returns false. If the result is the length of the working text, the check
  has passed and the method goes on to its last step: it commits the working text and
  range and returns true when \<open>isPassiveDifference\<close> accepts the old and the working text,
  and invalidates and returns false when it does not.
\<close>

theorem touched_end_is_revalidated:
  assumes "loop E (initial s) pre = Continue L"
    and "parser_sentenceRangeContainment E (newRange L) (change_range change) = After"
    and "textUtil_positionIsEqual E (end (newRange L)) (start (change_range change))"
  shows "case loop E (initial s) (pre @ (change, delta) # post) of
           Return r \<Rightarrow>
             applyTextChanges E s (pre @ (change, delta) # post) doc = r
             \<and> (\<exists>s'. r = Inr (s', False))
         | Continue L' \<Rightarrow>
             touchesEnd L'
             \<and> (let endOffset = textUtil_offsetAt E doc (end (newRange L'));
                     newEnd = parser_parseSentenceLength E (newText L' @ substr doc endOffset 1)
                 in applyTextChanges E s (pre @ (change, delta) # post) doc
                    = (if newEnd = - 1 \<or> newEnd \<noteq> int (length (newText L'))
                       then Inr (invalidated (this L'), False)
                       else if parser_isPassiveDifference E (text (this L')) (newText L')
                       then Inr ((this L')\<lparr>text := newText L', documentRange := newRange L'\<rparr>,
                                 True)
                       else Inr (invalidated (this L'), False)))"
proof (cases "loop E (initial s) (pre @ (change, delta) # post)")
  case (Return r)
  from loop_return_kept[OF Return] have "\<exists>s'. r = Inr (s', False)" by blast
  then show ?thesis using Return by (simp add: applyTextChanges_def)
next
  case (Continue L')
  have b: "loop_body E L (change, delta) = Continue (L\<lparr>touchesEnd := True\<rparr>)"
    using assms(2,3) by (simp add: loop_body_def)
  have "loop E (L\<lparr>touchesEnd := True\<rparr>) post = Continue L'"
    using assms(1) Continue b by (simp add: loop_append)
  then have t: "touchesEnd L'" by (rule loop_touchesEnd) simp
  show ?thesis
    using t Continue
    by (simp add: applyTextChanges_def after_loop_def endHasMoved_def Let_def
        invalidate_return_false_eq)
qed

text \<open>
  Two runs on the sentence \<open>foo.\<close>: a letter typed right after the period makes the parse
  of \<open>foo.x\<close> fail and the sentence is invalidated; a space typed there leaves the parse of
  \<open>foo.\<close> followed by the space at length 4 and the sentence is kept.
\<close>

theorem touched_end_is_revalidated_witness:
  "loop sample_deps (initial foo_sentence) [] = Continue (initial foo_sentence)
   \<and> parser_sentenceRangeContainment sample_deps (newRange (initial foo_sentence))
        (change_range (fst (replaceAt 0 9 0 ''x''))) = After
   \<and> textUtil_positionIsEqual sample_deps (end (newRange (initial foo_sentence)))
        (start (change_range (fst (replaceAt 0 9 0 ''x''))))
   \<and> loop sample_deps (initial foo_sentence) ([] @ replaceAt 0 9 0 ''x'' # [])
       = Continue ((initial foo_sentence)\<lparr>touchesEnd := True\<rparr>)
   \<and> parser_parseSentenceLength sample_deps (''foo.'' @ substr ''     foo.x'' 9 1) = - 1
   \<and> applyTextChanges sample_deps foo_sentence ([] @ replaceAt 0 9 0 ''x'' # []) ''     foo.x''
       = Inr (foo_sentence\<lparr>state := Some \<lparr>markInvalidCalls = 1\<rparr>\<rparr>, False)
   \<and> parser_sentenceRangeContainment sample_deps (newRange (initial foo_sentence))
        (change_range (fst (replaceAt 0 9 0 '' ''))) = After
   \<and> textUtil_positionIsEqual sample_deps (end (newRange (initial foo_sentence)))
        (start (change_range (fst (replaceAt 0 9 0 '' ''))))
   \<and> loop sample_deps (initial foo_sentence) ([] @ replaceAt 0 9 0 '' '' # [])
       = Continue ((initial foo_sentence)\<lparr>touchesEnd := True\<rparr>)
   \<and> parser_parseSentenceLength sample_deps (''foo.'' @ substr ''     foo. '' 9 1) = 4
   \<and> applyTextChanges sample_deps foo_sentence ([] @ replaceAt 0 9 0 '' '' # []) ''     foo. ''
       = Inr (foo_sentence, True)"
proof -
  let ?L = "(initial foo_sentence)\<lparr>touchesEnd := True\<rparr>"
  have h1: "loop sample_deps (initial foo_sentence) [] = Continue (initial foo_sentence)"
    by simp
  have h2: "parser_sentenceRangeContainment sample_deps (newRange (initial foo_sentence))
        (change_range (fst (replaceAt 0 9 0 ''x''))) = After" by code_simp
  have h3: "textUtil_positionIsEqual sample_deps (end (newRange (initial foo_sentence)))
        (start (change_range (fst (replaceAt 0 9 0 ''x''))))" by code_simp
  have l: "loop sample_deps (initial foo_sentence) ([] @ replaceAt 0 9 0 ''x'' # [])
       = Continue ?L" by code_simp
  have g2: "parser_sentenceRangeContainment sample_deps (newRange (initial foo_sentence))
        (change_range (fst (replaceAt 0 9 0 '' ''))) = After" by code_simp
  have g3: "textUtil_positionIsEqual sample_deps (end (newRange (initial foo_sentence)))
        (start (change_range (fst (replaceAt 0 9 0 '' ''))))" by code_simp
  have m: "loop sample_deps (initial foo_sentence) ([] @ replaceAt 0 9 0 '' '' # [])
       = Continue ?L" by code_simp
  have o: "textUtil_offsetAt sample_deps ''     foo.x'' (end (newRange ?L)) = 9" by code_simp
  have o': "textUtil_offsetAt sample_deps ''     foo. '' (end (newRange ?L)) = 9" by code_simp
  have t: "newText ?L = ''foo.''" by code_simp
  have p: "parser_parseSentenceLength sample_deps (''foo.'' @ substr ''     foo.x'' 9 1) = - 1"
    by code_simp
  have q: "parser_parseSentenceLength sample_deps (''foo.'' @ substr ''     foo. '' 9 1) = 4"
    by code_simp
  have i: "invalidated (this ?L) = foo_sentence\<lparr>state := Some \<lparr>markInvalidCalls = 1\<rparr>\<rparr>"
    by code_simp
  have d: "parser_isPassiveDifference sample_deps (text (this ?L)) ''foo.''" by code_simp
  have c: "(this ?L)\<lparr>text := ''foo.'', documentRange := newRange ?L\<rparr> = foo_sentence"
    by code_simp
  from touched_end_is_revalidated
         [OF h1 h2 h3, where delta = "snd (replaceAt 0 9 0 ''x'')" and post = "[]"
            and doc = "''     foo.x''"]
  have r1: "applyTextChanges sample_deps foo_sentence ([] @ replaceAt 0 9 0 ''x'' # [])
              ''     foo.x''
       = Inr (foo_sentence\<lparr>state := Some \<lparr>markInvalidCalls = 1\<rparr>\<rparr>, False)"
    unfolding prod.collapse l outcome.case Let_def o t using p i by simp
  from touched_end_is_revalidated
         [OF h1 g2 g3, where delta = "snd (replaceAt 0 9 0 '' '')" and post = "[]"
            and doc = "''     foo. ''"]
  have r2: "applyTextChanges sample_deps foo_sentence ([] @ replaceAt 0 9 0 '' '' # [])
              ''     foo. ''
       = Inr (foo_sentence, True)"
    unfolding prod.collapse m outcome.case Let_def o' t using q d c by simp
  show ?thesis using h1 h2 h3 l p r1 g2 g3 m q r2 by (intro conjI)
qed

subsection \<open>The empty batch\<close>

text \<open>
  C8. With no changes the method returns true and leaves the text, the range and the
  offset of the sentence (and its state) as they are, for every document text. The method
  asks \<open>isPassiveDifference\<close> about the text and itself; the rule is assumed to accept two
  equal texts, between which there is no difference.
\<close>

theorem applyTextChanges_empty_batch:
  assumes "parser_isPassiveDifference E (text s) (text s)"
  shows "applyTextChanges E s [] doc = Inr (s, True)"
  using assms by (simp add: applyTextChanges_def after_loop_def initial_def)

theorem applyTextChanges_empty_batch_witness:
  "parser_isPassiveDifference sample_deps (text foo_sentence) (text foo_sentence)
   \<and> applyTextChanges sample_deps foo_sentence [] ''     foo.'' = Inr (foo_sentence, True)"
proof -
  have h: "parser_isPassiveDifference sample_deps (text foo_sentence) (text foo_sentence)"
    by code_simp
  from applyTextChanges_empty_batch[OF h] h show ?thesis by simp
qed

subsection \<open>documentOffsetAt\<close>

text \<open>
  C9. \<open>documentOffsetAt(p)\<close> is \<open>documentOffset + offsetAt(p)\<close> for every position; where
  \<open>offsetAt(p)\<close> is the sentinel \<open>-1\<close>, \<open>documentOffsetAt(p)\<close> is \<open>documentOffset - 1\<close>, not a
  sentinel of its own.
\<close>

theorem documentOffsetAt_is_documentOffset_plus_offsetAt:
  "documentOffsetAt E s p = documentOffset s + offsetAt E s p
   \<and> (offsetAt E s p = - 1 \<longrightarrow> documentOffsetAt E s p = documentOffset s - 1)"
  by (simp add: documentOffsetAt_def offsetAt_def)

theorem documentOffsetAt_is_documentOffset_plus_offsetAt_witness:
  "offsetAt sample_deps foo_sentence \<lparr>line = 3, character = 0\<rparr> = - 1
   \<and> documentOffsetAt sample_deps foo_sentence \<lparr>line = 3, character = 0\<rparr> = 4
   \<and> offsetAt sample_deps foo_sentence \<lparr>line = 0, character = 7\<rparr> = 2
   \<and> documentOffsetAt sample_deps foo_sentence \<lparr>line = 0, character = 7\<rparr> = 7"
proof -
  have a: "offsetAt sample_deps foo_sentence \<lparr>line = 3, character = 0\<rparr> = - 1" by code_simp
  have b: "offsetAt sample_deps foo_sentence \<lparr>line = 0, character = 7\<rparr> = 2" by code_simp
  have d: "documentOffset foo_sentence = 5" by (simp add: foo_sentence_def)
  from documentOffsetAt_is_documentOffset_plus_offsetAt
         [of sample_deps foo_sentence "\<lparr>line = 3, character = 0\<rparr>"]
       documentOffsetAt_is_documentOffset_plus_offsetAt
         [of sample_deps foo_sentence "\<lparr>line = 0, character = 7\<rparr>"] a b d
  show ?thesis by simp
qed

section \<open>Properties that rest on the modules as the specification describes them\<close>

subsection \<open>Positions\<close>

lemmas comparison_defs =
  positionIsEqual_def positionIsBefore_def positionIsBeforeOrEqual_def
  positionIsAfter_def positionIsAfterOrEqual_def rangeContains_def

lemma Position_eq_iff:
  "(a::Position) = b \<longleftrightarrow> line a = line b \<and> character a = character b"
  by (cases a, cases b) simp

lemma advance_after: "positionIsBefore p (advance p c)"
  by (simp add: advance_def positionIsBefore_def)

lemma advance_line: "line p \<le> line (advance p c)"
  by (simp add: advance_def)

lemma positionIsBefore_trans:
  "positionIsBefore a b \<Longrightarrow> positionIsBefore b c \<Longrightarrow> positionIsBefore a c"
  unfolding positionIsBefore_def by linarith

lemma positionIsBefore_neq: "positionIsBefore a b \<Longrightarrow> a \<noteq> b"
  by (auto simp: positionIsBefore_def)

lemma walk_after: "positionIsBefore p q \<Longrightarrow> positionIsBefore p (foldl advance q xs)"
proof (induction xs arbitrary: q)
  case Nil
  then show ?case by simp
next
  case (Cons x xs)
  have "positionIsBefore p (advance q x)"
    using Cons.prems advance_after[of q x] by (rule positionIsBefore_trans)
  then show ?case using Cons.IH by simp
qed

text \<open>
  C6. For every sentence whose range has its start at or before its end (the invariant of
  a range, section 3 of the specification) and every position, exactly one of \<open>isBefore\<close>,
  \<open>isAfter\<close> and \<open>contains\<close> holds, and \<open>comparePosition\<close> returns the name of the one that
  holds.
\<close>

theorem comparePosition_names_the_one_that_holds:
  assumes "positionIsBeforeOrEqual (start (documentRange s)) (end (documentRange s))"
  shows "(isBefore (spec_deps psl ipd) s p \<and> \<not> isAfter (spec_deps psl ipd) s p
            \<and> \<not> contains (spec_deps psl ipd) s p
            \<and> comparePosition (spec_deps psl ipd) s p = ''before'')
       \<or> (isAfter (spec_deps psl ipd) s p \<and> \<not> isBefore (spec_deps psl ipd) s p
            \<and> \<not> contains (spec_deps psl ipd) s p
            \<and> comparePosition (spec_deps psl ipd) s p = ''after'')
       \<or> (contains (spec_deps psl ipd) s p \<and> \<not> isBefore (spec_deps psl ipd) s p
            \<and> \<not> isAfter (spec_deps psl ipd) s p
            \<and> comparePosition (spec_deps psl ipd) s p = ''contains'')"
  using assms
  unfolding isBefore_def isAfter_def contains_def comparePosition_def spec_deps_def
    comparison_defs
  by (simp; linarith)

theorem comparePosition_names_the_one_that_holds_witness:
  "positionIsBeforeOrEqual (start (documentRange foo_sentence)) (end (documentRange foo_sentence))
   \<and> contains sample_deps foo_sentence \<lparr>line = 0, character = 7\<rparr>
   \<and> \<not> isBefore sample_deps foo_sentence \<lparr>line = 0, character = 7\<rparr>
   \<and> \<not> isAfter sample_deps foo_sentence \<lparr>line = 0, character = 7\<rparr>
   \<and> comparePosition sample_deps foo_sentence \<lparr>line = 0, character = 7\<rparr> = ''contains''
   \<and> isBefore sample_deps foo_sentence \<lparr>line = 0, character = 9\<rparr>
   \<and> comparePosition sample_deps foo_sentence \<lparr>line = 0, character = 9\<rparr> = ''before''"
proof -
  have h: "positionIsBeforeOrEqual (start (documentRange foo_sentence))
             (end (documentRange foo_sentence))" by code_simp
  have c: "contains sample_deps foo_sentence \<lparr>line = 0, character = 7\<rparr>" by code_simp
  have b: "isBefore sample_deps foo_sentence \<lparr>line = 0, character = 9\<rparr>" by code_simp
  from comparePosition_names_the_one_that_holds
         [OF h, of sample_parseSentenceLength sample_isPassiveDifference
            "\<lparr>line = 0, character = 7\<rparr>"]
       comparePosition_names_the_one_that_holds
         [OF h, of sample_parseSentenceLength sample_isPassiveDifference
            "\<lparr>line = 0, character = 9\<rparr>"]
       h c b
  show ?thesis unfolding sample_deps_def by auto
qed

text \<open>
  C10. For every sentence whose range is not empty (its start strictly before its end)
  and every position, \<open>isBeforeOrAt\<close> holds exactly when \<open>isBefore\<close> or \<open>contains\<close> holds, and
  \<open>isAfterOrAt\<close> holds exactly when \<open>isAfter\<close> or \<open>contains\<close> holds.
\<close>

theorem isBeforeOrAt_isAfterOrAt_of_nonempty_range:
  assumes "positionIsBefore (start (documentRange s)) (end (documentRange s))"
  shows "(isBeforeOrAt (spec_deps psl ipd) s p
            \<longleftrightarrow> isBefore (spec_deps psl ipd) s p \<or> contains (spec_deps psl ipd) s p)
       \<and> (isAfterOrAt (spec_deps psl ipd) s p
            \<longleftrightarrow> isAfter (spec_deps psl ipd) s p \<or> contains (spec_deps psl ipd) s p)"
  using assms
  unfolding isBefore_def isAfter_def contains_def isBeforeOrAt_def isAfterOrAt_def
    spec_deps_def comparison_defs
  by (simp; linarith)

theorem isBeforeOrAt_isAfterOrAt_of_nonempty_range_witness:
  "positionIsBefore (start (documentRange foo_sentence)) (end (documentRange foo_sentence))
   \<and> isBeforeOrAt sample_deps foo_sentence \<lparr>line = 0, character = 5\<rparr>
   \<and> contains sample_deps foo_sentence \<lparr>line = 0, character = 5\<rparr>
   \<and> isAfterOrAt sample_deps foo_sentence \<lparr>line = 0, character = 5\<rparr>
   \<and> \<not> isBefore sample_deps foo_sentence \<lparr>line = 0, character = 5\<rparr>
   \<and> \<not> isAfter sample_deps foo_sentence \<lparr>line = 0, character = 5\<rparr>"
proof -
  have h: "positionIsBefore (start (documentRange foo_sentence))
             (end (documentRange foo_sentence))" by code_simp
  have c: "contains sample_deps foo_sentence \<lparr>line = 0, character = 5\<rparr>" by code_simp
  have b: "\<not> isBefore sample_deps foo_sentence \<lparr>line = 0, character = 5\<rparr>" by code_simp
  have a: "\<not> isAfter sample_deps foo_sentence \<lparr>line = 0, character = 5\<rparr>" by code_simp
  from isBeforeOrAt_isAfterOrAt_of_nonempty_range
         [OF h, of sample_parseSentenceLength sample_isPassiveDifference
            "\<lparr>line = 0, character = 5\<rparr>"] h c b a
  show ?thesis unfolding sample_deps_def by simp
qed

subsection \<open>Offsets and positions of a sentence\<close>

lemma offsetFrom_walk:
  "n \<le> length cs \<Longrightarrow> offsetFrom cur cs (foldl advance cur (take n cs)) k = k + int n"
proof (induction cs arbitrary: cur n k)
  case Nil
  then show ?case by simp
next
  case (Cons c cs)
  show ?case
  proof (cases n)
    case 0
    then show ?thesis by simp
  next
    case (Suc m)
    have "positionIsBefore cur (foldl advance (advance cur c) (take m cs))"
      by (rule walk_after) (rule advance_after)
    then have ne: "cur \<noteq> foldl advance (advance cur c) (take m cs)"
      by (rule positionIsBefore_neq)
    have "m \<le> length cs" using Cons.prems Suc by simp
    from Cons.IH[OF this, of "advance cur c" "k + 1"] ne Suc show ?thesis by simp
  qed
qed

text \<open>
  C7. For every sentence and every local offset \<open>o\<close> with \<open>0 \<le> o \<le> text.length\<close>,
  \<open>offsetAt(positionAt(o)) = o\<close>.
\<close>

theorem offsetAt_positionAt:
  assumes "0 \<le> off" and "off \<le> int (length (text s))"
  shows "offsetAt (spec_deps psl ipd) s (positionAt (spec_deps psl ipd) s off) = off"
proof -
  have "nat off \<le> length (text s)" using assms by simp
  from offsetFrom_walk[OF this, of "start (documentRange s)" 0] assms(1)
  show ?thesis
    by (simp add: offsetAt_def positionAt_def spec_deps_def positionAtRelative_def
        relativeOffsetAtAbsolutePosition_def)
qed

theorem offsetAt_positionAt_witness:
  "(0::int) \<le> 2 \<and> 2 \<le> int (length (text foo_sentence))
   \<and> positionAt sample_deps foo_sentence 2 = \<lparr>line = 0, character = 7\<rparr>
   \<and> offsetAt sample_deps foo_sentence \<lparr>line = 0, character = 7\<rparr> = 2"
proof -
  have h1: "(0::int) \<le> 2" by simp
  have h2: "2 \<le> int (length (text foo_sentence))" by (simp add: foo_sentence_def)
  have p: "positionAt sample_deps foo_sentence 2 = \<lparr>line = 0, character = 7\<rparr>" by code_simp
  from offsetAt_positionAt
         [OF h1 h2, of sample_parseSentenceLength sample_isPassiveDifference] h1 h2 p
  show ?thesis unfolding sample_deps_def by simp
qed

subsection \<open>The length of the text and the range\<close>

lemma translate_walk:
  "line (end (editRange d)) \<le> line p \<Longrightarrow>
   positionRangeDeltaTranslate (foldl advance p u) d
     = foldl advance (positionRangeDeltaTranslate p d) u"
proof (induction u arbitrary: p)
  case Nil
  then show ?case by simp
next
  case (Cons c u)
  have "line (end (editRange d)) \<le> line (advance p c)"
    using Cons.prems advance_line[of p c] by linarith
  from Cons.IH[OF this]
  have "positionRangeDeltaTranslate (foldl advance p (c # u)) d
          = foldl advance (positionRangeDeltaTranslate (advance p c) d) u" by simp
  moreover have "positionRangeDeltaTranslate (advance p c) d
          = advance (positionRangeDeltaTranslate p d) c"
    using Cons.prems by (auto simp: positionRangeDeltaTranslate_def advance_def)
  ultimately show ?case by simp
qed

lemma offsetFrom_cases:
  "offsetFrom cur cs pos k = - 1
   \<or> (\<exists>n\<le>length cs. offsetFrom cur cs pos k = k + int n
                      \<and> foldl advance cur (take n cs) = pos)"
proof (induction cs arbitrary: cur k)
  case Nil
  then show ?case by simp
next
  case (Cons c cs)
  show ?case
  proof (cases "cur = pos")
    case True
    then have "offsetFrom cur (c # cs) pos k = k + int 0
        \<and> foldl advance cur (take 0 (c # cs)) = pos"
      by simp
    then show ?thesis by blast
  next
    case False
    from Cons.IH[of "advance cur c" "k + 1"] show ?thesis
    proof
      assume "offsetFrom (advance cur c) cs pos (k + 1) = - 1"
      with False show ?thesis by simp
    next
      assume "\<exists>n\<le>length cs. offsetFrom (advance cur c) cs pos (k + 1) = k + 1 + int n
                \<and> foldl advance (advance cur c) (take n cs) = pos"
      then obtain n where n: "n \<le> length cs"
        "offsetFrom (advance cur c) cs pos (k + 1) = k + 1 + int n"
        "foldl advance (advance cur c) (take n cs) = pos" by blast
      with False have "Suc n \<le> length (c # cs)
          \<and> offsetFrom cur (c # cs) pos k = k + int (Suc n)
          \<and> foldl advance cur (take (Suc n) (c # cs)) = pos" by simp
      then show ?thesis by blast
    qed
  qed
qed

lemma relativeOffset_found:
  assumes "relativeOffsetAtAbsolutePosition cs origin pos = b" and "b \<noteq> - 1"
  shows "0 \<le> b \<and> nat b \<le> length cs \<and> foldl advance origin (take (nat b) cs) = pos"
  using offsetFrom_cases[of origin cs pos 0] assms
  by (auto simp: relativeOffsetAtAbsolutePosition_def)

lemma translate_edit_end:
  assumes "delta_describes change delta"
  shows "positionRangeDeltaTranslate (end (change_range change)) delta
           = foldl advance (start (change_range change)) (change_text change)"
  using assms
  by (simp add: delta_describes_def Let_def positionRangeDeltaTranslate_def
      positionAtRelative_def Position_eq_iff)

text \<open>The splice of lines 166 to 170 keeps the end of the range at the end of the text.\<close>

lemma splice_walk:
  assumes wi: "foldl advance (start r) T = end r"
    and b: "relativeOffsetAtAbsolutePosition T (start r) (start (change_range change)) = b"
      "b \<noteq> - 1"
    and dd: "delta_describes change delta"
    and rl: "rangeLength_describes T r change"
  shows "foldl advance (start r)
           (substring T 0 b @ change_text change @ substringFrom T (b + rangeLength change))
         = positionRangeDeltaTranslateEnd (end r) delta"
proof -
  let ?cr = "change_range change"
  from relativeOffset_found[OF b] have b0: "0 \<le> b" and bl: "nat b \<le> length T"
    and bw: "foldl advance (start r) (take (nat b) T) = start ?cr" by simp_all
  define e where "e = b + rangeLength change"
  from rl b have e: "relativeOffsetAtAbsolutePosition T (start r) (end ?cr) = e" "e \<noteq> - 1"
    and r0: "0 \<le> rangeLength change"
    by (simp_all add: rangeLength_describes_def Let_def e_def)
  from relativeOffset_found[OF e] have e0: "0 \<le> e" and el: "nat e \<le> length T"
    and ew: "foldl advance (start r) (take (nat e) T) = end ?cr" by simp_all
  have s1: "substring T 0 b = take (nat b) T"
    using b0 bl by (simp add: substring_def clampIndex_def Let_def min_def max_def)
  have s2: "substringFrom T (b + rangeLength change) = drop (nat e) T"
    using e0 el by (simp add: substringFrom_def clampIndex_def e_def min_def)
  have "foldl advance (start r) (take (nat b) T @ change_text change @ drop (nat e) T)
          = foldl advance (foldl advance (start ?cr) (change_text change)) (drop (nat e) T)"
    using bw by simp
  also have "\<dots> = foldl advance (positionRangeDeltaTranslate (end ?cr) delta) (drop (nat e) T)"
    using translate_edit_end[OF dd] by simp
  also have "\<dots> = positionRangeDeltaTranslate (foldl advance (end ?cr) (drop (nat e) T)) delta"
  proof -
    have "editRange delta = ?cr" using dd by (simp add: delta_describes_def Let_def)
    then have "line (end (editRange delta)) \<le> line (end ?cr)" by simp
    from translate_walk[OF this] show ?thesis by simp
  qed
  also have "foldl advance (end ?cr) (drop (nat e) T)
               = foldl advance (start r) (take (nat e) T @ drop (nat e) T)"
    using ew by (simp only: foldl_append)
  also have "\<dots> = end r" using wi by simp
  finally show ?thesis using s1 s2 by (simp add: positionRangeDeltaTranslateEnd_def)
qed

lemma loop_body_invariant:
  assumes wi: "working_invariant L"
    and dd: "delta_describes (fst cd) (snd cd)"
    and rl: "parser_sentenceRangeContainment (spec_deps psl ipd) (newRange L)
                 (change_range (fst cd)) = Contains
               \<longrightarrow> rangeLength_describes (newText L) (newRange L) (fst cd)"
    and step: "loop_body (spec_deps psl ipd) L cd = Continue L'"
  shows "working_invariant L'"
proof (cases "sentenceRangeContainment (newRange L) (change_range (fst cd))")
  case Before
  then have le: "positionIsBeforeOrEqual (end (change_range (fst cd))) (start (newRange L))"
    by (simp add: sentenceRangeContainment_def split: if_splits)
  have er: "editRange (snd cd) = change_range (fst cd)"
    using dd by (simp add: delta_describes_def Let_def)
  have "line (end (editRange (snd cd))) \<le> line (start (newRange L))"
    using le er by (auto simp: comparison_defs)
  from translate_walk[OF this, of "newText L"] wi
  have "foldl advance (positionRangeDeltaTranslate (start (newRange L)) (snd cd)) (newText L)
          = positionRangeDeltaTranslate (end (newRange L)) (snd cd)"
    by (simp add: working_invariant_def)
  moreover from step Before have "newText L' = newText L"
    "newRange L' = rangeDeltaTranslate (newRange L) (snd cd)"
    by (auto simp: loop_body_def spec_deps_def Let_def)
  ultimately show ?thesis
    by (simp add: working_invariant_def rangeDeltaTranslate_def
        positionRangeDeltaTranslateEnd_def)
next
  case After
  with step have "newText L' = newText L" "newRange L' = newRange L"
    by (auto simp: loop_body_def spec_deps_def Let_def split: if_splits)
  with wi show ?thesis by (simp add: working_invariant_def)
next
  case Crosses
  with step show ?thesis by (simp add: loop_body_def spec_deps_def Let_def)
next
  case Contains
  define b where "b = relativeOffsetAtAbsolutePosition (newText L) (start (newRange L))
                        (start (change_range (fst cd)))"
  show ?thesis
  proof (cases "b = - 1")
    case True
    with step Contains have "L' = L"
      by (simp add: loop_body_def spec_deps_def Let_def b_def)
    with wi show ?thesis by simp
  next
    case False
    from rl Contains have rl': "rangeLength_describes (newText L) (newRange L) (fst cd)"
      by (simp add: spec_deps_def)
    from wi have w: "foldl advance (start (newRange L)) (newText L) = end (newRange L)"
      by (simp add: working_invariant_def)
    from splice_walk[OF w b_def[symmetric] False dd rl']
    have sw: "foldl advance (start (newRange L))
            (substring (newText L) 0 b @ change_text (fst cd)
              @ substringFrom (newText L) (b + rangeLength (fst cd)))
          = positionRangeDeltaTranslateEnd (end (newRange L)) (snd cd)" .
    from step Contains False
    have "newText L' = substring (newText L) 0 b @ change_text (fst cd)
              @ substringFrom (newText L) (b + rangeLength (fst cd))"
      and "start (newRange L') = start (newRange L)"
      and "end (newRange L') = positionRangeDeltaTranslateEnd (end (newRange L)) (snd cd)"
      by (auto simp: loop_body_def spec_deps_def Let_def b_def assign_newRange_end_def)
    with sw show ?thesis by (simp add: working_invariant_def)
  qed
qed

lemma loop_invariant:
  "working_invariant L \<Longrightarrow> changes_described (spec_deps psl ipd) L xs \<Longrightarrow>
   loop (spec_deps psl ipd) L xs = Continue L' \<Longrightarrow> working_invariant L'"
proof (induction xs arbitrary: L)
  case Nil
  then show ?case by simp
next
  case (Cons cd xs)
  from Cons.prems(3) obtain L1 where b: "loop_body (spec_deps psl ipd) L cd = Continue L1"
    and l: "loop (spec_deps psl ipd) L1 xs = Continue L'"
    by (auto split: outcome.splits)
  from Cons.prems(2) b have dd: "delta_describes (fst cd) (snd cd)"
    and rl: "parser_sentenceRangeContainment (spec_deps psl ipd) (newRange L)
                 (change_range (fst cd)) = Contains
               \<longrightarrow> rangeLength_describes (newText L) (newRange L) (fst cd)"
    and rest: "changes_described (spec_deps psl ipd) L1 xs" by simp_all
  from loop_body_invariant[OF Cons.prems(1) dd rl b] have "working_invariant L1" .
  from Cons.IH[OF this rest l] show ?case .
qed

text \<open>
  C5. Let the sentence satisfy the invariant that the length of its text is the distance
  from the start to the end of its range, and let the batch be described correctly by its
  deltas and range lengths. If \<open>applyTextChanges\<close> returns true, the sentence with the new
  text and the new range satisfies the invariant again.
\<close>

theorem applyTextChanges_true_keeps_length_invariant:
  assumes "sentence_invariant s"
    and "changes_described (spec_deps psl ipd) (initial s) batch"
    and "applyTextChanges (spec_deps psl ipd) s batch doc = Inr (s', True)"
  shows "sentence_invariant s'"
proof (cases "loop (spec_deps psl ipd) (initial s) batch")
  case (Continue L)
  have "working_invariant (initial s)"
    using assms(1)
    by (simp add: working_invariant_def sentence_invariant_def initial_def
        positionAtRelative_def)
  from loop_invariant[OF this assms(2) Continue] have wi: "working_invariant L" .
  from assms(3) Continue have "after_loop (spec_deps psl ipd) L doc = Inr (s', True)"
    by (simp add: applyTextChanges_def)
  with after_loop_cases[of "spec_deps psl ipd" L doc]
  have "s' = (this L)\<lparr>text := newText L, documentRange := newRange L\<rparr>" by auto
  with wi show ?thesis
    by (simp add: working_invariant_def sentence_invariant_def positionAtRelative_def)
next
  case (Return r)
  from loop_return_kept[OF Return] assms(3) Return show ?thesis
    by (auto simp: applyTextChanges_def)
qed

theorem applyTextChanges_true_keeps_length_invariant_witness:
  "sentence_invariant foo_sentence
   \<and> changes_described sample_deps (initial foo_sentence)
        [replaceAt 0 8 0 ''  '', replaceAt 0 0 0 [CHR ''a'', CHR 0x0A, CHR ''b'']]
   \<and> applyTextChanges sample_deps foo_sentence
        [replaceAt 0 8 0 ''  '', replaceAt 0 0 0 [CHR ''a'', CHR 0x0A, CHR ''b'']] []
       = Inr (\<lparr>text = ''foo  .'',
               documentRange = \<lparr>start = \<lparr>line = 1, character = 6\<rparr>,
                                end = \<lparr>line = 1, character = 12\<rparr>\<rparr>,
               documentOffset = 8,
               state = Some \<lparr>markInvalidCalls = 0\<rparr>\<rparr>, True)
   \<and> sentence_invariant
        \<lparr>text = ''foo  .'',
         documentRange = \<lparr>start = \<lparr>line = 1, character = 6\<rparr>,
                          end = \<lparr>line = 1, character = 12\<rparr>\<rparr>,
         documentOffset = 8,
         state = Some \<lparr>markInvalidCalls = 0\<rparr>\<rparr>"
proof -
  have h1: "sentence_invariant foo_sentence" by code_simp
  have h2: "changes_described (spec_deps sample_parseSentenceLength sample_isPassiveDifference)
        (initial foo_sentence)
        [replaceAt 0 8 0 ''  '', replaceAt 0 0 0 [CHR ''a'', CHR 0x0A, CHR ''b'']]"
    by code_simp
  have h3: "applyTextChanges (spec_deps sample_parseSentenceLength sample_isPassiveDifference)
        foo_sentence
        [replaceAt 0 8 0 ''  '', replaceAt 0 0 0 [CHR ''a'', CHR 0x0A, CHR ''b'']] []
       = Inr (\<lparr>text = ''foo  .'',
               documentRange = \<lparr>start = \<lparr>line = 1, character = 6\<rparr>,
                                end = \<lparr>line = 1, character = 12\<rparr>\<rparr>,
               documentOffset = 8,
               state = Some \<lparr>markInvalidCalls = 0\<rparr>\<rparr>, True)"
    by code_simp
  from applyTextChanges_true_keeps_length_invariant[OF h1 h2 h3] h1 h2 h3
  show ?thesis unfolding sample_deps_def by simp
qed

end
